theory Spec2Isabelle
  imports Complex_Main "HOL-Library.Multiset" "HOL-Library.Sublist"
begin

text \<open>
  A model of the cyclomatic-complexity command of Log20-Go. The repository holds the
  command twice. The model follows the copy with the flags \<^verbatim>\<open>-over\<close>, \<^verbatim>\<open>-top\<close> and
  \<^verbatim>\<open>-avg\<close>, which sorts the records and cuts the report; the other copy has the same
  \<^verbatim>\<open>funcName\<close>, \<^verbatim>\<open>recvString\<close>, \<^verbatim>\<open>complexity\<close>, \<^verbatim>\<open>Visit\<close> and \<^verbatim>\<open>buildBasicBlocks\<close>
  and prints every record unsorted.

  Go's \<^verbatim>\<open>int\<close> is modelled by \<open>int\<close>: the counter, the scores and the indices count
  records and syntax nodes that the process holds in memory, so they stay far below
  the bound of the 64-bit type. Pointers that the parser never leaves nil (the name of
  a declaration, the fields of a list, the type of a receiver) are plain values; those
  that may be nil are options.
\<close>

section \<open>Syntax trees\<close>

text \<open>
  The program reads Go syntax trees built by \<^verbatim>\<open>go/parser\<close>. Of a tree it inspects only
  the dynamic type of each node, the operator of a binary expression, the callee of a
  call, and the receiver list and name of a function declaration. The type \<open>node\<close>
  below has one constructor for every node type the program distinguishes below a
  declaration; every other node type (blocks, assignments, function literals, switch
  statements, types, ...) is \<open>OtherNode\<close>. The lists are the children in the order in
  which \<^verbatim>\<open>ast.Walk\<close> visits them.
\<close>

datatype token = LAND | LOR | OtherOp string

datatype node =
    Ident string
  | StarExpr node
  | BinaryExpr node token node
  | CallExpr node "node list"
  | IfStmt "node list"
  | ForStmt "node list"
  | RangeStmt "node list"
  | CaseClause "node list"
  | CommClause "node list"
  | OtherNode "node list"

text \<open>
  A receiver field as the parser builds it: its names and its type. The parser is run
  with mode 0, so no comment groups are attached, and a receiver carries no tag.
\<close>

record Field =
  fld_Names :: "string list"
  fld_Type :: node

record Position =
  Filename :: string
  Offset :: int
  Line :: int
  Column :: int

text \<open>
  A function declaration: \<open>fn_Recv\<close> is \<open>None\<close> for the nil receiver list of a plain
  function; \<open>fn_Body\<close> is \<open>None\<close> for a declaration without body. \<open>fn_Pos\<close> and
  \<open>fn_End\<close> are the positions \<^verbatim>\<open>fset.Position(fn.Pos())\<close> and
  \<^verbatim>\<open>fset.Position(fn.End())\<close>. A \<^verbatim>\<open>FuncDecl\<close> is not a \<open>node\<close>: Go has no nested
  function declarations, a function inside a body is a function literal.
\<close>

record FuncDecl =
  fn_Recv :: "Field list option"
  fn_Name :: string
  fn_Type :: node
  fn_Body :: "node option"
  fn_Pos :: Position
  fn_End :: Position

text \<open>
  The declarations of a file: function declarations, and the general declarations
  (imports, constants, types, variables) and bad declarations the program skips.
\<close>

datatype Decl = Func FuncDecl | GenDecl | BadDecl

record File =
  f_Name :: string
  f_Decls :: "Decl list"

section \<open>Records, output, failures\<close>

record BasicBlock =
  PkgName :: string
  FuncName :: string
  Complexity :: int
  Pos :: Position
  EndPos :: Position
  ID :: int

text \<open>
  The value of \<^verbatim>\<open>float64(a) / float64(b)\<close> for two integers as far as the program needs
  it: IEEE division gives NaN for \<open>0 / 0\<close> and an infinity for any other division by
  zero. The rounding of the quotient to 53 bits is not modelled.
\<close>

datatype float64 = NaN | PosInf | NegInf | Fin real

definition float64_quo :: "int \<Rightarrow> int \<Rightarrow> float64" where
  "float64_quo a b =
     (if b = 0 then (if a = 0 then NaN else if 0 < a then PosInf else NegInf)
      else Fin (real_of_int a / real_of_int b))"

text \<open>
  What the program writes to standard output, one value per print call:
  \<^verbatim>\<open>fmt.Printf("%+v\n", n.Fun)\<close> in the visitor, \<^verbatim>\<open>fmt.Fprintln(w, BasicBlock)\<close> in the
  report, and \<^verbatim>\<open>fmt.Printf("Average: %.3g\n", ...)\<close>. And what it writes to standard
  error.
\<close>

datatype printed = FunDump node | RecordLine BasicBlock | AverageLine float64

datatype panic = IndexOutOfRange

datatype err_output = FlagErrorLine string | UsageDoc | FatalLine string | PanicTrace panic

text \<open>
  A run ends early by \<^verbatim>\<open>log.Fatal\<close> (with the error it prints) or by a run-time panic.
\<close>

datatype abort = Fatal string | Panicked panic

text \<open>
  The package-level variable \<^verbatim>\<open>count\<close> and the standard output written so far. The
  program has a single goroutine, so the mutex that \<^verbatim>\<open>buildBasicBlocks\<close> locks and
  unlocks is never contended and is not part of the state.
\<close>

record globals =
  g_count :: int
  g_stdout :: "printed list"

section \<open>Function identifier\<close>

text \<open>
  \<^verbatim>\<open>recvString\<close>: the type switch has the cases \<^verbatim>\<open>*ast.Ident\<close> and \<^verbatim>\<open>*ast.StarExpr\<close>;
  every other expression falls through to the final return.
\<close>

fun recvString :: "node \<Rightarrow> string" where
  "recvString (Ident name) = name"
| "recvString (StarExpr x) = ''*'' @ recvString x"
| "recvString _ = ''BADRECV''"

text \<open>
  \<^verbatim>\<open>(*ast.FieldList).NumFields\<close> of the standard library: a nil list has no fields, a
  field without names counts once.
\<close>

fun NumFields :: "Field list option \<Rightarrow> int" where
  "NumFields None = 0"
| "NumFields (Some fs) =
     fold (\<lambda>g n. n + (let m = int (length (fld_Names g)) in if m = 0 then 1 else m)) fs 0"

text \<open>
  \<^verbatim>\<open>funcName\<close>. The read \<^verbatim>\<open>fn.Recv.List[0]\<close> panics on an empty list in Go; the model
  keeps that branch.
\<close>

definition funcName :: "FuncDecl \<Rightarrow> panic + string" where
  "funcName fn =
     (case fn_Recv fn of
        Some fs \<Rightarrow>
          if NumFields (Some fs) > 0 then
            (case fs of
               [] \<Rightarrow> Inl IndexOutOfRange
             | f # _ \<Rightarrow> Inr (''('' @ recvString (fld_Type f) @ '').'' @ fn_Name fn))
          else Inr (fn_Name fn)
      | None \<Rightarrow> Inr (fn_Name fn))"

section \<open>Decision-point classifier\<close>

text \<open>
  The argument of \<^verbatim>\<open>Visit\<close> is an \<^verbatim>\<open>ast.Node\<close> interface value: nil, the declaration, a
  receiver list, a receiver field, or a node below them.
\<close>

datatype ast_Node =
    Nil_Node
  | Decl_Node FuncDecl
  | FieldList_Node "Field list"
  | Field_Node Field
  | Tree_Node node

record complexityVisitor =
  v_Complexity :: int

type_synonym vstate = "complexityVisitor \<times> printed list"

text \<open>
  \<^verbatim>\<open>(*complexityVisitor).Visit\<close>: the visitor is updated in place and returned, so the
  model returns the visitor and the standard output.
\<close>

fun Visit :: "ast_Node \<Rightarrow> vstate \<Rightarrow> vstate" where
  "Visit (Decl_Node fn) (v, out) = (v\<lparr>v_Complexity := v_Complexity v + 1\<rparr>, out)"
| "Visit (Tree_Node (IfStmt cs)) (v, out) = (v\<lparr>v_Complexity := v_Complexity v + 1\<rparr>, out)"
| "Visit (Tree_Node (ForStmt cs)) (v, out) = (v\<lparr>v_Complexity := v_Complexity v + 1\<rparr>, out)"
| "Visit (Tree_Node (RangeStmt cs)) (v, out) = (v\<lparr>v_Complexity := v_Complexity v + 1\<rparr>, out)"
| "Visit (Tree_Node (CaseClause cs)) (v, out) = (v\<lparr>v_Complexity := v_Complexity v + 1\<rparr>, out)"
| "Visit (Tree_Node (CommClause cs)) (v, out) = (v\<lparr>v_Complexity := v_Complexity v + 1\<rparr>, out)"
| "Visit (Tree_Node (BinaryExpr x op y)) (v, out) =
     (if op = LAND \<or> op = LOR then (v\<lparr>v_Complexity := v_Complexity v + 1\<rparr>, out)
      else (v, out))"
| "Visit (Tree_Node (CallExpr f args)) (v, out) = (v, out @ [FunDump f])"
| "Visit _ (v, out) = (v, out)"

text \<open>
  \<^verbatim>\<open>ast.Walk\<close> of the standard library: it calls \<^verbatim>\<open>Visit\<close> on the node, walks the
  children with the visitor \<^verbatim>\<open>Visit\<close> returned (always the same visitor here, never
  nil), and calls \<^verbatim>\<open>Visit(nil)\<close> at the end.
\<close>

fun Walk :: "node \<Rightarrow> vstate \<Rightarrow> vstate"
  and walkList :: "node list \<Rightarrow> vstate \<Rightarrow> vstate" where
  "Walk (Ident name) s = Visit Nil_Node (Visit (Tree_Node (Ident name)) s)"
| "Walk (StarExpr x) s = Visit Nil_Node (Walk x (Visit (Tree_Node (StarExpr x)) s))"
| "Walk (BinaryExpr x op y) s =
     Visit Nil_Node (Walk y (Walk x (Visit (Tree_Node (BinaryExpr x op y)) s)))"
| "Walk (CallExpr f args) s =
     Visit Nil_Node (walkList args (Walk f (Visit (Tree_Node (CallExpr f args)) s)))"
| "Walk (IfStmt cs) s = Visit Nil_Node (walkList cs (Visit (Tree_Node (IfStmt cs)) s))"
| "Walk (ForStmt cs) s = Visit Nil_Node (walkList cs (Visit (Tree_Node (ForStmt cs)) s))"
| "Walk (RangeStmt cs) s = Visit Nil_Node (walkList cs (Visit (Tree_Node (RangeStmt cs)) s))"
| "Walk (CaseClause cs) s = Visit Nil_Node (walkList cs (Visit (Tree_Node (CaseClause cs)) s))"
| "Walk (CommClause cs) s = Visit Nil_Node (walkList cs (Visit (Tree_Node (CommClause cs)) s))"
| "Walk (OtherNode cs) s = Visit Nil_Node (walkList cs (Visit (Tree_Node (OtherNode cs)) s))"
| "walkList [] s = s"
| "walkList (c # cs) s = walkList cs (Walk c s)"

definition Walk_Field :: "Field \<Rightarrow> vstate \<Rightarrow> vstate" where
  "Walk_Field f s =
     Visit Nil_Node
       (Walk (fld_Type f) (walkList (map Ident (fld_Names f)) (Visit (Field_Node f) s)))"

definition Walk_FieldList :: "Field list \<Rightarrow> vstate \<Rightarrow> vstate" where
  "Walk_FieldList fs s = Visit Nil_Node (fold Walk_Field fs (Visit (FieldList_Node fs) s))"

definition Walk_FuncDecl :: "FuncDecl \<Rightarrow> vstate \<Rightarrow> vstate" where
  "Walk_FuncDecl fn s =
     (let s1 = Visit (Decl_Node fn) s;
          s2 = (case fn_Recv fn of None \<Rightarrow> s1 | Some fs \<Rightarrow> Walk_FieldList fs s1);
          s3 = Walk (Ident (fn_Name fn)) s2;
          s4 = Walk (fn_Type fn) s3;
          s5 = (case fn_Body fn of None \<Rightarrow> s4 | Some b \<Rightarrow> Walk b s4)
      in Visit Nil_Node s5)"

text \<open>
  \<^verbatim>\<open>complexity\<close>: a fresh visitor, walked over the declaration. It takes the standard
  output written so far and returns the score and the standard output afterwards.
\<close>

definition complexity :: "FuncDecl \<Rightarrow> printed list \<Rightarrow> int \<times> printed list" where
  "complexity fn out =
     (let (v, out') = Walk_FuncDecl fn (\<lparr>v_Complexity = 0\<rparr>, out)
      in (v_Complexity v, out'))"

section \<open>Record builder\<close>

type_synonym analysis = "(abort \<times> globals) + (BasicBlock list \<times> globals)"

text \<open>
  The loop of \<^verbatim>\<open>buildBasicBlocks\<close> over \<^verbatim>\<open>f.Decls\<close>. For a function declaration the
  composite literal evaluates \<^verbatim>\<open>funcName(fn)\<close>, then \<^verbatim>\<open>complexity(fn)\<close>, and reads
  \<^verbatim>\<open>count\<close>; the record is appended and \<^verbatim>\<open>count\<close> incremented (between
  \<^verbatim>\<open>counterMutex.Lock()\<close> and \<^verbatim>\<open>counterMutex.Unlock()\<close>).
\<close>

fun buildLoop :: "File \<Rightarrow> Decl list \<Rightarrow> BasicBlock list \<Rightarrow> globals \<Rightarrow> analysis" where
  "buildLoop f [] BasicBlocks g = Inr (BasicBlocks, g)"
| "buildLoop f (Func fn # decls) BasicBlocks g =
     (case funcName fn of
        Inl p \<Rightarrow> Inl (Panicked p, g)
      | Inr name \<Rightarrow>
          (case complexity fn (g_stdout g) of
             (c, out) \<Rightarrow>
               buildLoop f decls
                 (BasicBlocks @
                    [\<lparr>PkgName = f_Name f, FuncName = name, Complexity = c,
                      Pos = fn_Pos fn, EndPos = fn_End fn, ID = g_count g\<rparr>])
                 \<lparr>g_count = g_count g + 1, g_stdout = out\<rparr>))"
| "buildLoop f (_ # decls) BasicBlocks g = buildLoop f decls BasicBlocks g"

definition buildBasicBlocks :: "File \<Rightarrow> BasicBlock list \<Rightarrow> globals \<Rightarrow> analysis" where
  "buildBasicBlocks f BasicBlocks g = buildLoop f (f_Decls f) BasicBlocks g"

section \<open>Files and directories\<close>

text \<open>
  The file system and the parser, as the run sees them: \<open>os_isDir\<close> answers
  \<^verbatim>\<open>os.Stat\<close> (no error and a directory), \<open>parser_ParseFile\<close> is
  \<^verbatim>\<open>parser.ParseFile(fset, fname, nil, 0)\<close> with its error or its file, and
  \<open>filepath_Walk\<close> lists the calls \<^verbatim>\<open>filepath.Walk\<close> makes to its callback for a root, in
  order, as long as the callback returns nil: the path, whether it is a directory, and
  the error handed in.
\<close>

record walk_call =
  wc_path :: string
  wc_IsDir :: bool
  wc_err :: "string option"

record world =
  os_isDir :: "string \<Rightarrow> bool"
  parser_ParseFile :: "string \<Rightarrow> string + File"
  filepath_Walk :: "string \<Rightarrow> walk_call list"

definition HasSuffix :: "string \<Rightarrow> string \<Rightarrow> bool" where
  "HasSuffix s suff =
     (length s \<ge> length suff \<and> drop (length s - length suff) s = suff)"

definition isDir :: "world \<Rightarrow> string \<Rightarrow> bool" where
  "isDir w filename = os_isDir w filename"

text \<open>\<^verbatim>\<open>analyzeFile\<close>: a parse error goes to \<^verbatim>\<open>log.Fatal\<close>, which ends the process.\<close>

definition analyzeFile :: "world \<Rightarrow> string \<Rightarrow> BasicBlock list \<Rightarrow> globals \<Rightarrow> analysis" where
  "analyzeFile w fname BasicBlocks g =
     (case parser_ParseFile w fname of
        Inl err \<Rightarrow> Inl (Fatal err, g)
      | Inr f \<Rightarrow> buildBasicBlocks f BasicBlocks g)"

text \<open>
  \<^verbatim>\<open>analyzeDir\<close>: the callback analyses a Go file and returns the error it was handed;
  \<^verbatim>\<open>filepath.Walk\<close> stops at the first call that returns an error, and its own result is
  dropped.
\<close>

fun walkLoop :: "world \<Rightarrow> walk_call list \<Rightarrow> BasicBlock list \<Rightarrow> globals \<Rightarrow> analysis" where
  "walkLoop w [] BasicBlocks g = Inr (BasicBlocks, g)"
| "walkLoop w (c # cs) BasicBlocks g =
     (if wc_err c = None \<and> \<not> wc_IsDir c \<and> HasSuffix (wc_path c) ''.go'' then
        (case analyzeFile w (wc_path c) BasicBlocks g of
           Inl a \<Rightarrow> Inl a
         | Inr (BasicBlocks', g') \<Rightarrow> walkLoop w cs BasicBlocks' g')
      else if wc_err c \<noteq> None then Inr (BasicBlocks, g)
      else walkLoop w cs BasicBlocks g)"

definition analyzeDir :: "world \<Rightarrow> string \<Rightarrow> BasicBlock list \<Rightarrow> globals \<Rightarrow> analysis" where
  "analyzeDir w dirname BasicBlocks g = walkLoop w (filepath_Walk w dirname) BasicBlocks g"

fun analyzeLoop :: "world \<Rightarrow> string list \<Rightarrow> BasicBlock list \<Rightarrow> globals \<Rightarrow> analysis" where
  "analyzeLoop w [] BasicBlocks g = Inr (BasicBlocks, g)"
| "analyzeLoop w (path # paths) BasicBlocks g =
     (case (if isDir w path then analyzeDir w path BasicBlocks g
            else analyzeFile w path BasicBlocks g) of
        Inl a \<Rightarrow> Inl a
      | Inr (BasicBlocks', g') \<Rightarrow> analyzeLoop w paths BasicBlocks' g')"

definition analyze :: "world \<Rightarrow> string list \<Rightarrow> globals \<Rightarrow> analysis" where
  "analyze w paths g = analyzeLoop w paths [] g"

section \<open>Sorting\<close>

text \<open>Indexing a slice with an \<^verbatim>\<open>int\<close>: out of range it panics.\<close>

definition elem :: "'a list \<Rightarrow> int \<Rightarrow> panic + 'a" where
  "elem s i = (if 0 \<le> i \<and> i < int (length s) then Inr (s ! nat i) else Inl IndexOutOfRange)"

text \<open>The methods of \<^verbatim>\<open>byComplexity\<close>.\<close>

definition Len :: "BasicBlock list \<Rightarrow> int" where
  "Len s = int (length s)"

definition Swap :: "BasicBlock list \<Rightarrow> int \<Rightarrow> int \<Rightarrow> panic + BasicBlock list" where
  "Swap s i j =
     (case elem s i of
        Inl p \<Rightarrow> Inl p
      | Inr x \<Rightarrow>
          (case elem s j of
             Inl p \<Rightarrow> Inl p
           | Inr y \<Rightarrow> Inr (s[nat i := y, nat j := x])))"

definition Less :: "BasicBlock list \<Rightarrow> int \<Rightarrow> int \<Rightarrow> panic + bool" where
  "Less s i j =
     (case elem s i of
        Inl p \<Rightarrow> Inl p
      | Inr x \<Rightarrow>
          (case elem s j of
             Inl p \<Rightarrow> Inl p
           | Inr y \<Rightarrow> Inr (Complexity x \<ge> Complexity y)))"

text \<open>
  \<^verbatim>\<open>insertionSort(data, a, b)\<close> of the standard library's \<^verbatim>\<open>sort\<close> package, over the
  methods of \<^verbatim>\<open>data\<close>:
  \<^verbatim>\<open>for i := a + 1; i < b; i++ { for j := i; j > a && data.Less(j, j-1); j-- { data.Swap(j, j-1) } }\<close>
\<close>

function insertionSort_inner ::
  "('a list \<Rightarrow> int \<Rightarrow> int \<Rightarrow> panic + bool) \<Rightarrow> ('a list \<Rightarrow> int \<Rightarrow> int \<Rightarrow> panic + 'a list) \<Rightarrow>
   'a list \<Rightarrow> int \<Rightarrow> int \<Rightarrow> panic + 'a list" where
  "insertionSort_inner data_Less data_Swap data a j =
     (if j > a then
        (case data_Less data j (j - 1) of
           Inl p \<Rightarrow> Inl p
         | Inr lt \<Rightarrow>
             if lt then
               (case data_Swap data j (j - 1) of
                  Inl p \<Rightarrow> Inl p
                | Inr data' \<Rightarrow> insertionSort_inner data_Less data_Swap data' a (j - 1))
             else Inr data)
      else Inr data)"
  by pat_completeness auto
termination
  by (relation "measure (\<lambda>(data_Less, data_Swap, data, a, j). nat (j - a))") auto

declare insertionSort_inner.simps [simp del]

function insertionSort_outer ::
  "('a list \<Rightarrow> int \<Rightarrow> int \<Rightarrow> panic + bool) \<Rightarrow> ('a list \<Rightarrow> int \<Rightarrow> int \<Rightarrow> panic + 'a list) \<Rightarrow>
   'a list \<Rightarrow> int \<Rightarrow> int \<Rightarrow> int \<Rightarrow> panic + 'a list" where
  "insertionSort_outer data_Less data_Swap data a b i =
     (if i < b then
        (case insertionSort_inner data_Less data_Swap data a i of
           Inl p \<Rightarrow> Inl p
         | Inr data' \<Rightarrow> insertionSort_outer data_Less data_Swap data' a b (i + 1))
      else Inr data)"
  by pat_completeness auto
termination
  by (relation "measure (\<lambda>(data_Less, data_Swap, data, a, b, i). nat (b - i))") auto

declare insertionSort_outer.simps [simp del]

definition insertionSort ::
  "('a list \<Rightarrow> int \<Rightarrow> int \<Rightarrow> panic + bool) \<Rightarrow> ('a list \<Rightarrow> int \<Rightarrow> int \<Rightarrow> panic + 'a list) \<Rightarrow>
   'a list \<Rightarrow> int \<Rightarrow> int \<Rightarrow> panic + 'a list" where
  "insertionSort data_Less data_Swap data a b = insertionSort_outer data_Less data_Swap data a b (a + 1)"

text \<open>
  \<^verbatim>\<open>sort.Sort(byComplexity(BasicBlocks))\<close> for a slice of at most six records. In every
  release of the library \<^verbatim>\<open>sort.Sort\<close> is then \<^verbatim>\<open>insertionSort(data, 0, data.Len())\<close>:
  quicksort, and pattern-defeating quicksort in the newer releases, partition only
  slices of more than 7 or 12 elements, and the pass with gap 6 that some releases run
  before the insertion sort is empty up to six elements. Longer slices are outside
  this definition; \<open>main\<close> below takes the library's sort as a parameter.
\<close>

definition sort_Sort_short :: "BasicBlock list \<Rightarrow> panic + BasicBlock list" where
  "sort_Sort_short s = insertionSort Less Swap s 0 (Len s)"

section \<open>Report\<close>

record config =
  over :: int
  top :: int
  avg :: bool

text \<open>The defaults of the flags \<^verbatim>\<open>-over\<close>, \<^verbatim>\<open>-top\<close> and \<^verbatim>\<open>-avg\<close>.\<close>

definition flagDefaults :: config where
  "flagDefaults = \<lparr>over = 0, top = - 1, avg = False\<rparr>"

text \<open>
  The loop of \<^verbatim>\<open>writeBasicBlocks\<close> from index \<open>i\<close> on: \<open>Some i\<close> is one of the two early
  returns, \<open>None\<close> the end of the slice.
\<close>

fun writeLoop ::
  "config \<Rightarrow> int \<Rightarrow> BasicBlock list \<Rightarrow> printed list \<Rightarrow> int option \<times> printed list" where
  "writeLoop cfg i [] out = (None, out)"
| "writeLoop cfg i (b # bs) out =
     (if i = top cfg then (Some i, out)
      else if Complexity b \<le> over cfg then (Some i, out)
      else writeLoop cfg (i + 1) bs (out @ [RecordLine b]))"

definition writeBasicBlocks :: "config \<Rightarrow> BasicBlock list \<Rightarrow> printed list \<Rightarrow> int \<times> printed list" where
  "writeBasicBlocks cfg sortedBasicBlocks out =
     (case writeLoop cfg 0 sortedBasicBlocks out of
        (Some i, out') \<Rightarrow> (i, out')
      | (None, out') \<Rightarrow> (int (length sortedBasicBlocks), out'))"

text \<open>\<^verbatim>\<open>average\<close>: the loop adds the complexities up from 0.\<close>

definition average :: "BasicBlock list \<Rightarrow> float64" where
  "average BasicBlocks =
     float64_quo (fold (\<lambda>s total. total + Complexity s) BasicBlocks 0)
       (int (length BasicBlocks))"

definition showAverage :: "BasicBlock list \<Rightarrow> printed list \<Rightarrow> printed list" where
  "showAverage BasicBlocks out = out @ [AverageLine (average BasicBlocks)]"

section \<open>The command\<close>

record process =
  p_stdout :: "printed list"
  p_stderr :: "err_output list"
  p_status :: int

text \<open>
  \<^verbatim>\<open>usage\<close> prints the usage text to standard error and calls \<^verbatim>\<open>os.Exit(2)\<close>.
\<close>

definition usage :: "printed list \<Rightarrow> err_output list \<Rightarrow> process" where
  "usage out err = \<lparr>p_stdout = out, p_stderr = err @ [UsageDoc], p_status = 2\<rparr>"

text \<open>
  What \<^verbatim>\<open>flag.Parse()\<close> of the standard library does with the command line, once
  \<^verbatim>\<open>main\<close> has set \<^verbatim>\<open>flag.Usage = usage\<close>. On an undefined flag or a bad flag value
  it prints its error and calls \<^verbatim>\<open>flag.Usage\<close>; on \<^verbatim>\<open>-h\<close> or \<^verbatim>\<open>-help\<close> it calls
  \<^verbatim>\<open>flag.Usage\<close> without an error line: \<open>Failed\<close> with the error line, if any.
  Otherwise it sets the flag values and leaves the arguments behind the flags:
  \<open>Parsed\<close>.
\<close>

datatype flag_Parse = Failed "string option" | Parsed config "string list"

text \<open>
  \<^verbatim>\<open>main\<close>, for the outcome of \<^verbatim>\<open>flag.Parse()\<close>; \<open>cfg\<close> are the flag values and
  \<open>args\<close> is \<^verbatim>\<open>flag.Args()\<close>. \<open>srt\<close> is \<^verbatim>\<open>sort.Sort\<close> applied to a \<^verbatim>\<open>byComplexity\<close>:
  the slice it leaves behind, or a panic. \<^verbatim>\<open>log.Fatal\<close> prints the error and exits with
  status 1; the Go run time ends a panicking process with status 2.
\<close>

definition main ::
  "(BasicBlock list \<Rightarrow> panic + BasicBlock list) \<Rightarrow> world \<Rightarrow> flag_Parse \<Rightarrow> process" where
  "main srt w cmd =
     (case cmd of
        Failed msg \<Rightarrow>
          usage [] (case msg of None \<Rightarrow> [] | Some line \<Rightarrow> [FlagErrorLine line])
      | Parsed cfg args \<Rightarrow>
          if length args = 0 then usage [] []
          else
            (case analyze w args \<lparr>g_count = 1, g_stdout = []\<rparr> of
               Inl (Fatal err, g) \<Rightarrow>
                 \<lparr>p_stdout = g_stdout g, p_stderr = [FatalLine err], p_status = 1\<rparr>
             | Inl (Panicked p, g) \<Rightarrow>
                 \<lparr>p_stdout = g_stdout g, p_stderr = [PanicTrace p], p_status = 2\<rparr>
             | Inr (BasicBlocks, g) \<Rightarrow>
                 (case srt BasicBlocks of
                    Inl p \<Rightarrow> \<lparr>p_stdout = g_stdout g, p_stderr = [PanicTrace p], p_status = 2\<rparr>
                  | Inr BasicBlocks' \<Rightarrow>
                      (case writeBasicBlocks cfg BasicBlocks' (g_stdout g) of
                         (written, out) \<Rightarrow>
                           \<lparr>p_stdout = (if avg cfg then showAverage BasicBlocks' out else out),
                            p_stderr = [],
                            p_status = (if over cfg > 0 \<and> written > 0 then 1 else 0)\<rparr>))))"

section \<open>Counting decision points\<close>

text \<open>
  The nodes of a subtree in the order of the walk, and the nodes below a declaration:
  the names and types of the receiver fields, the name, the function type and the
  body. (The declaration itself, the receiver list and its fields are not of type
  \<open>node\<close>; the latter two are none of the kinds that count.)
\<close>

fun nodes :: "node \<Rightarrow> node list"
  and nodesList :: "node list \<Rightarrow> node list" where
  "nodes (Ident name) = [Ident name]"
| "nodes (StarExpr x) = StarExpr x # nodes x"
| "nodes (BinaryExpr x op y) = BinaryExpr x op y # nodes x @ nodes y"
| "nodes (CallExpr f args) = CallExpr f args # nodes f @ nodesList args"
| "nodes (IfStmt cs) = IfStmt cs # nodesList cs"
| "nodes (ForStmt cs) = ForStmt cs # nodesList cs"
| "nodes (RangeStmt cs) = RangeStmt cs # nodesList cs"
| "nodes (CaseClause cs) = CaseClause cs # nodesList cs"
| "nodes (CommClause cs) = CommClause cs # nodesList cs"
| "nodes (OtherNode cs) = OtherNode cs # nodesList cs"
| "nodesList [] = []"
| "nodesList (c # cs) = nodes c @ nodesList cs"

definition fieldNodes :: "Field \<Rightarrow> node list" where
  "fieldNodes f = map Ident (fld_Names f) @ nodes (fld_Type f)"

definition declNodes :: "FuncDecl \<Rightarrow> node list" where
  "declNodes fn =
     (case fn_Recv fn of None \<Rightarrow> [] | Some fs \<Rightarrow> concat (map fieldNodes fs)) @
     [Ident (fn_Name fn)] @ nodes (fn_Type fn) @
     (case fn_Body fn of None \<Rightarrow> [] | Some b \<Rightarrow> nodes b)"

fun is_if :: "node \<Rightarrow> bool" where
  "is_if (IfStmt cs) = True"
| "is_if _ = False"

fun is_loop :: "node \<Rightarrow> bool" where
  "is_loop (ForStmt cs) = True"
| "is_loop (RangeStmt cs) = True"
| "is_loop _ = False"

fun is_arm :: "node \<Rightarrow> bool" where
  "is_arm (CaseClause cs) = True"
| "is_arm (CommClause cs) = True"
| "is_arm _ = False"

fun is_logical :: "node \<Rightarrow> bool" where
  "is_logical (BinaryExpr x op y) = (op = LAND \<or> op = LOR)"
| "is_logical _ = False"

definition decisionPoints :: "node list \<Rightarrow> int" where
  "decisionPoints ns =
     int (length (filter is_if ns)) + int (length (filter is_loop ns)) +
     int (length (filter is_arm ns)) + int (length (filter is_logical ns))"

text \<open>The callees of the call expressions among some nodes, as the visitor prints them.\<close>

fun funDumps :: "node list \<Rightarrow> printed list" where
  "funDumps [] = []"
| "funDumps (CallExpr f args # ns) = FunDump f # funDumps ns"
| "funDumps (_ # ns) = funDumps ns"

text \<open>The effect of a walk on the visitor and the standard output: \<open>k\<close> more, \<open>ps\<close> printed.\<close>

definition effect :: "int \<Rightarrow> printed list \<Rightarrow> vstate \<Rightarrow> vstate" where
  "effect k ps s = ((fst s)\<lparr>v_Complexity := v_Complexity (fst s) + k\<rparr>, snd s @ ps)"

section \<open>Notions used in the statements\<close>

text \<open>The pointer depth of a receiver expression and the expression under its stars.\<close>

fun stars :: "node \<Rightarrow> nat" where
  "stars (StarExpr x) = Suc (stars x)"
| "stars _ = 0"

fun pointee :: "node \<Rightarrow> node" where
  "pointee (StarExpr x) = pointee x"
| "pointee x = x"

text \<open>The function declarations among the declarations of a file, in source order.\<close>

fun funcDecls :: "Decl list \<Rightarrow> FuncDecl list" where
  "funcDecls [] = []"
| "funcDecls (Func fn # decls) = fn # funcDecls decls"
| "funcDecls (_ # decls) = funcDecls decls"

text \<open>The ids \<open>c\<close>, \<open>c + 1\<close>, ... of \<open>n\<close> records created from counter value \<open>c\<close> on.\<close>

definition idsFrom :: "int \<Rightarrow> nat \<Rightarrow> int list" where
  "idsFrom c n = map (\<lambda>k. c + int k) [0..<n]"

text \<open>
  The state between two steps of the analysis: the records carry the ids 1, 2, ... in
  order, the counter is one more than their number, and standard output holds nothing
  but what the visitor printed. And what a step from records \<open>bs\<close> may end in: a fatal
  error that the parser returned for some file, with nothing but the visitor's lines
  on standard output, or more records behind \<open>bs\<close> in such a state.
\<close>

fun is_dump :: "printed \<Rightarrow> bool" where
  "is_dump (FunDump n) = True"
| "is_dump _ = False"

definition numbered :: "BasicBlock list \<Rightarrow> globals \<Rightarrow> bool" where
  "numbered bs g =
     (map ID bs = idsFrom 1 (length bs) \<and> g_count g = 1 + int (length bs)
      \<and> list_all is_dump (g_stdout g))"

definition extends :: "world \<Rightarrow> BasicBlock list \<Rightarrow> analysis \<Rightarrow> bool" where
  "extends w bs r =
     (case r of
        Inl (a, g') \<Rightarrow>
          (case a of
             Fatal err \<Rightarrow>
               list_all is_dump (g_stdout g') \<and> (\<exists>fname. parser_ParseFile w fname = Inl err)
           | Panicked p \<Rightarrow> False)
      | Inr (bs', g') \<Rightarrow> numbered bs' g' \<and> prefix bs bs')"

text \<open>
  The records the report loop prints when it stands at index \<open>i\<close> before the records
  \<open>bs\<close>: those before index \<open>top\<close> (all of them when \<open>top\<close> is already behind, as
  for a negative \<open>top\<close>), up to the first one whose complexity is not over \<open>over\<close>.
\<close>

definition emitted :: "config \<Rightarrow> int \<Rightarrow> BasicBlock list \<Rightarrow> BasicBlock list" where
  "emitted cfg i bs =
     takeWhile (\<lambda>b. Complexity b > over cfg)
       (if top cfg < i then bs else take (nat (top cfg - i)) bs)"

text \<open>
  Insertion from the right end, on the reversed prefix: the new record passes every
  record whose complexity is not greater than its own.
\<close>

fun insertBack :: "BasicBlock \<Rightarrow> BasicBlock list \<Rightarrow> BasicBlock list" where
  "insertBack x [] = [x]"
| "insertBack x (y # ys) =
     (if Complexity x \<ge> Complexity y then y # insertBack x ys else x # y # ys)"

section \<open>Examples\<close>

text \<open>A method declaration with one receiver field, for the examples.\<close>

definition pos0 :: Position where
  "pos0 = \<lparr>Filename = ''a.go'', Offset = 0, Line = 1, Column = 1\<rparr>"

definition mkMethod :: "string \<Rightarrow> node \<Rightarrow> string \<Rightarrow> FuncDecl" where
  "mkMethod r typ name =
     \<lparr>fn_Recv = Some [\<lparr>fld_Names = [r], fld_Type = typ\<rparr>], fn_Name = name,
      fn_Type = OtherNode [], fn_Body = None, fn_Pos = pos0, fn_End = pos0\<rparr>"

text \<open>
  A function whose body holds a closure with \<^verbatim>\<open>if a && b { for { } }\<close>, a function
  without decision points, and a function that calls \<^verbatim>\<open>g()\<close>.
\<close>

definition closureExample :: FuncDecl where
  "closureExample =
     \<lparr>fn_Recv = None, fn_Name = ''f'', fn_Type = OtherNode [OtherNode []],
      fn_Body = Some (OtherNode [OtherNode [OtherNode [OtherNode [OtherNode []],
        OtherNode [IfStmt [BinaryExpr (Ident ''a'') LAND (Ident ''b''),
          OtherNode [ForStmt [OtherNode []]]]]]]]),
      fn_Pos = pos0, fn_End = pos0\<rparr>"

definition plainExample :: FuncDecl where
  "plainExample =
     \<lparr>fn_Recv = None, fn_Name = ''g'', fn_Type = OtherNode [OtherNode []],
      fn_Body = Some (OtherNode [OtherNode [BinaryExpr (Ident ''a'') (OtherOp ''+'') (Ident ''b'')]]),
      fn_Pos = pos0, fn_End = pos0\<rparr>"

definition callExample :: FuncDecl where
  "callExample =
     \<lparr>fn_Recv = None, fn_Name = ''h'', fn_Type = OtherNode [OtherNode []],
      fn_Body = Some (OtherNode [OtherNode [CallExpr (Ident ''g'') []]]),
      fn_Pos = pos0, fn_End = pos0\<rparr>"

text \<open>
  Two files: \<^verbatim>\<open>a.go\<close> declares a method and, after a general declaration, a function;
  \<^verbatim>\<open>b.go\<close> declares one function. Every other path fails to parse.
\<close>

definition fileA :: File where
  "fileA = \<lparr>f_Name = ''a'',
     f_Decls = [Func (mkMethod ''r'' (Ident ''T'') ''M''), GenDecl, Func plainExample]\<rparr>"

definition fileB :: File where
  "fileB = \<lparr>f_Name = ''b'', f_Decls = [Func closureExample]\<rparr>"

definition twoFiles :: world where
  "twoFiles =
     \<lparr>os_isDir = (\<lambda>p. False),
      parser_ParseFile =
        (\<lambda>p. if p = ''a.go'' then Inr fileA
             else if p = ''b.go'' then Inr fileB
             else Inl ''1:1: expected package, found EOF''),
      filepath_Walk = (\<lambda>p. [])\<rparr>"

text \<open>Three records, sorted by complexity.\<close>

definition threeRecords :: "BasicBlock list" where
  "threeRecords =
     [\<lparr>PkgName = ''a'', FuncName = ''f'', Complexity = 5, Pos = pos0, EndPos = pos0, ID = 2\<rparr>,
      \<lparr>PkgName = ''a'', FuncName = ''g'', Complexity = 3, Pos = pos0, EndPos = pos0, ID = 1\<rparr>,
      \<lparr>PkgName = ''a'', FuncName = ''h'', Complexity = 2, Pos = pos0, EndPos = pos0, ID = 3\<rparr>]"


text \<open>The records of the two files, in discovery order.\<close>

definition twoFilesRecords :: "BasicBlock list" where
  "twoFilesRecords =
     [\<lparr>PkgName = ''a'', FuncName = ''(T).M'', Complexity = 1, Pos = pos0, EndPos = pos0, ID = 1\<rparr>,
      \<lparr>PkgName = ''a'', FuncName = ''g'', Complexity = 1, Pos = pos0, EndPos = pos0, ID = 2\<rparr>,
      \<lparr>PkgName = ''b'', FuncName = ''f'', Complexity = 4, Pos = pos0, EndPos = pos0, ID = 3\<rparr>]"

section \<open>Properties of the function identifier\<close>

lemma NumFields_fold_mono:
  "n \<le> fold (\<lambda>g n. n + (let m = int (length (fld_Names g)) in if m = 0 then 1 else m)) fs n"
proof (induction fs arbitrary: n)
  case Nil
  show ?case by simp
next
  case (Cons g fs)
  have "n \<le> n + (let m = int (length (fld_Names g)) in if m = 0 then 1 else m)"
    by (simp add: Let_def)
  also have "\<dots> \<le> fold (\<lambda>g n. n + (let m = int (length (fld_Names g)) in if m = 0 then 1 else m)) fs \<dots>"
    by (rule Cons.IH)
  finally show ?case by simp
qed

lemma NumFields_Cons_pos: "0 < NumFields (Some (f # fs))"
proof -
  have "0 < (0::int) + (let m = int (length (fld_Names f)) in if m = 0 then 1 else m)"
    by (simp add: Let_def)
  also have "\<dots> \<le> fold (\<lambda>g n. n + (let m = int (length (fld_Names g)) in if m = 0 then 1 else m)) fs \<dots>"
    by (rule NumFields_fold_mono)
  finally show ?thesis by simp
qed

lemma funcName_method:
  "fn_Recv fn = Some (f # fs) \<Longrightarrow>
   funcName fn = Inr (''('' @ recvString (fld_Type f) @ '').'' @ fn_Name fn)"
  using NumFields_Cons_pos [of f fs] by (simp add: funcName_def)


lemma recvString_stars:
  "recvString e =
     replicate (stars e) CHR ''*'' @
       (case pointee e of Ident name \<Rightarrow> name | _ \<Rightarrow> ''BADRECV'')"
  by (induction e rule: recvString.induct) simp_all

lemma recvString_funpow: "recvString ((StarExpr ^^ n) x) = replicate n CHR ''*'' @ recvString x"
  by (induction n) simp_all

lemma funcName_total: "\<exists>s. funcName fn = Inr s"
proof (cases "fn_Recv fn")
  case None
  then show ?thesis by (simp add: funcName_def)
next
  case (Some fs)
  show ?thesis
  proof (cases fs)
    case Nil
    with Some show ?thesis by (simp add: funcName_def)
  next
    case (Cons f fs')
    with Some show ?thesis by (simp add: funcName_method)
  qed
qed

text \<open>
  C6. The code departs from the claim, and from the doc comment of \<^verbatim>\<open>recvString\<close>
  (a result of the form \<open>T\<close>, \<open>*T\<close> or \<open>BADRECV\<close>), at a receiver that is a pointer to
  anything but a named type: the double pointer \<open>**T\<close> of a method \<open>M\<close> is rendered
  \<open>(**T).M\<close> and the pointer to an index expression \<open>*T[K]\<close> is rendered
  \<open>(*BADRECV).M\<close>, where the claim has \<open>(BADRECV).M\<close>.
\<close>

theorem double_pointer_receiver_rendering:
  "funcName (mkMethod ''r'' (StarExpr (StarExpr (Ident ''T''))) ''M'') = Inr ''(**T).M''
   \<and> funcName (mkMethod ''r'' (StarExpr (OtherNode [Ident ''T'', Ident ''K''])) ''M'') =
       Inr ''(*BADRECV).M''
   \<and> funcName (mkMethod ''r'' (StarExpr (StarExpr (Ident ''T''))) ''M'') \<noteq> Inr ''(BADRECV).M''"
  by (simp add: funcName_def mkMethod_def)

text \<open>
  C7. The function identifier never fails; a declaration without receiver list gets its
  own identifier; a method gets \<open>(R).Name\<close> with the rendering \<open>R\<close> of the type of its
  first receiver field, so that a pointer receiver gives \<open>(*\<close>, the rendering of the
  pointee, and \<open>).Name\<close>; a pointer renders as \<open>*\<close> followed by the rendering of its
  pointee, at every depth; and every rendering is a run of stars followed by the name
  of the named type under them, or by \<open>BADRECV\<close> when what is under them is not an
  identifier.
\<close>

theorem funcName_total_recursive_rendering:
  "(\<exists>s. funcName fn = Inr s)
   \<and> (fn_Recv fn = None \<longrightarrow> funcName fn = Inr (fn_Name fn))
   \<and> (\<forall>f fs. fn_Recv fn = Some (f # fs) \<longrightarrow>
         funcName fn = Inr (''('' @ recvString (fld_Type f) @ '').'' @ fn_Name fn))
   \<and> (\<forall>f fs y. fn_Recv fn = Some (f # fs) \<and> fld_Type f = StarExpr y \<longrightarrow>
         funcName fn = Inr (''(*'' @ recvString y @ '').'' @ fn_Name fn))
   \<and> recvString (StarExpr x) = ''*'' @ recvString x
   \<and> recvString ((StarExpr ^^ n) x) = replicate n CHR ''*'' @ recvString x
   \<and> recvString e =
       replicate (stars e) CHR ''*'' @
         (case pointee e of Ident name \<Rightarrow> name | _ \<Rightarrow> ''BADRECV'')"
proof (intro conjI allI impI)
  show "\<exists>s. funcName fn = Inr s"
    by (rule funcName_total)
  show "recvString (StarExpr x) = ''*'' @ recvString x"
    by simp
  show "recvString ((StarExpr ^^ n) x) = replicate n CHR ''*'' @ recvString x"
    by (rule recvString_funpow)
  show "recvString e =
       replicate (stars e) CHR ''*'' @
         (case pointee e of Ident name \<Rightarrow> name | _ \<Rightarrow> ''BADRECV'')"
    by (rule recvString_stars)
next
  assume "fn_Recv fn = None"
  then show "funcName fn = Inr (fn_Name fn)"
    by (simp add: funcName_def)
next
  fix f fs
  assume "fn_Recv fn = Some (f # fs)"
  then show "funcName fn = Inr (''('' @ recvString (fld_Type f) @ '').'' @ fn_Name fn)"
    by (rule funcName_method)
next
  fix f fs y
  assume "fn_Recv fn = Some (f # fs) \<and> fld_Type f = StarExpr y"
  then show "funcName fn = Inr (''(*'' @ recvString y @ '').'' @ fn_Name fn)"
    by (simp add: funcName_method)
qed

theorem funcName_total_recursive_rendering_witness:
  "funcName (mkMethod ''r'' (Ident ''T'') ''M'' \<lparr>fn_Recv := None\<rparr>) = Inr ''M''
   \<and> funcName (mkMethod ''r'' (Ident ''T'') ''M'') = Inr ''(T).M''
   \<and> funcName (mkMethod ''r'' (StarExpr (Ident ''T'')) ''M'') = Inr ''(*T).M''
   \<and> funcName (mkMethod ''r'' (StarExpr (StarExpr (StarExpr (Ident ''T'')))) ''M'') = Inr ''(***T).M''
   \<and> recvString (StarExpr (StarExpr (StarExpr (Ident ''T'')))) = ''***T''
   \<and> recvString (StarExpr (OtherNode [])) = ''*BADRECV''"
  using funcName_total_recursive_rendering
          [of "mkMethod ''r'' (Ident ''T'') ''M'' \<lparr>fn_Recv := None\<rparr>" "Ident ''T''" 3
              "StarExpr (OtherNode [])"]
        funcName_total_recursive_rendering [of "mkMethod ''r'' (Ident ''T'') ''M''"]
        funcName_total_recursive_rendering [of "mkMethod ''r'' (StarExpr (Ident ''T'')) ''M''"]
        funcName_total_recursive_rendering
          [of "mkMethod ''r'' (StarExpr (StarExpr (StarExpr (Ident ''T'')))) ''M''"]
  by (simp add: mkMethod_def numeral_3_eq_3)

text \<open>
  C10. A receiver list that is present but has no field gives the bare function name,
  as a declaration without receiver list does.
\<close>

theorem funcName_empty_receiver_list:
  "fn_Recv fn = Some [] \<Longrightarrow>
   funcName fn = Inr (fn_Name fn) \<and> funcName fn = funcName (fn \<lparr>fn_Recv := None\<rparr>)"
  by (simp add: funcName_def)

theorem funcName_empty_receiver_list_witness:
  "funcName (mkMethod ''r'' (Ident ''T'') ''M'' \<lparr>fn_Recv := Some []\<rparr>) = Inr ''M''"
  using funcName_empty_receiver_list [of "mkMethod ''r'' (Ident ''T'') ''M'' \<lparr>fn_Recv := Some []\<rparr>"]
  by (simp add: mkMethod_def)

section \<open>Properties of the decision-point classifier\<close>


lemma effect_effect: "effect k ps (effect k' ps' s) = effect (k' + k) (ps' @ ps) s"
  by (simp add: effect_def)

lemma effect_0: "effect 0 [] s = s"
  by (simp add: effect_def)

lemma Visit_Nil: "Visit Nil_Node s = s"
  by (cases s) simp

lemma decisionPoints_Nil: "decisionPoints [] = 0"
  by (simp add: decisionPoints_def)

lemma decisionPoints_Cons:
  "decisionPoints (n # ns) =
     (if is_if n \<or> is_loop n \<or> is_arm n \<or> is_logical n then 1 else 0) + decisionPoints ns"
  by (cases n) (simp_all add: decisionPoints_def)

lemma decisionPoints_append: "decisionPoints (xs @ ys) = decisionPoints xs + decisionPoints ys"
  by (simp add: decisionPoints_def)

lemma funDumps_append: "funDumps (xs @ ys) = funDumps xs @ funDumps ys"
  by (induction xs rule: funDumps.induct) simp_all

lemma Visit_effect:
  "Visit (Tree_Node n) s =
     effect (if is_if n \<or> is_loop n \<or> is_arm n \<or> is_logical n then 1 else 0) (funDumps [n]) s"
  by (cases n; cases s) (simp_all add: effect_def)

lemma Walk_effect:
  "Walk n s = effect (decisionPoints (nodes n)) (funDumps (nodes n)) s"
  "walkList ns s = effect (decisionPoints (nodesList ns)) (funDumps (nodesList ns)) s"
proof (induction n s and ns s rule: Walk_walkList.induct)
  case (1 name s)
  show ?case by (simp add: Visit_Nil Visit_effect decisionPoints_Cons decisionPoints_Nil)
next
  case (2 x s)
  then show ?case
    by (simp add: Visit_Nil Visit_effect effect_effect decisionPoints_Cons)
next
  case (3 x op y s)
  then show ?case
    by (simp add: Visit_Nil Visit_effect effect_effect decisionPoints_append funDumps_append decisionPoints_Cons add.assoc)
next
  case (4 f args s)
  then show ?case
    by (simp add: Visit_Nil Visit_effect effect_effect decisionPoints_append funDumps_append decisionPoints_Cons add.assoc)
next
  case (5 cs s)
  then show ?case
    by (simp add: Visit_Nil Visit_effect effect_effect decisionPoints_Cons)
next
  case (6 cs s)
  then show ?case
    by (simp add: Visit_Nil Visit_effect effect_effect decisionPoints_Cons)
next
  case (7 cs s)
  then show ?case
    by (simp add: Visit_Nil Visit_effect effect_effect decisionPoints_Cons)
next
  case (8 cs s)
  then show ?case
    by (simp add: Visit_Nil Visit_effect effect_effect decisionPoints_Cons)
next
  case (9 cs s)
  then show ?case
    by (simp add: Visit_Nil Visit_effect effect_effect decisionPoints_Cons)
next
  case (10 cs s)
  then show ?case
    by (simp add: Visit_Nil Visit_effect effect_effect decisionPoints_Cons)
next
  case (11 s)
  show ?case by (simp add: effect_0 decisionPoints_Nil)
next
  case (12 c cs s)
  then show ?case
    by (simp add: effect_effect decisionPoints_append funDumps_append add.assoc)
qed


lemma Visit_Field_Node: "Visit (Field_Node f) s = s"
  by (cases s) simp

lemma Visit_FieldList_Node: "Visit (FieldList_Node fs) s = s"
  by (cases s) simp

lemma Visit_Decl_Node: "Visit (Decl_Node fn) s = effect 1 [] s"
  by (cases s) (simp add: effect_def)

lemma nodesList_Ident: "nodesList (map Ident names) = map Ident names"
  by (induction names) simp_all

lemma Walk_Field_effect:
  "Walk_Field f s = effect (decisionPoints (fieldNodes f)) (funDumps (fieldNodes f)) s"
  by (simp add: Walk_Field_def fieldNodes_def Visit_Nil Visit_Field_Node Walk_effect
      nodesList_Ident effect_effect decisionPoints_append funDumps_append)

lemma fold_Walk_Field_effect:
  "fold Walk_Field fs s =
     effect (decisionPoints (concat (map fieldNodes fs))) (funDumps (concat (map fieldNodes fs))) s"
proof (induction fs arbitrary: s)
  case Nil
  show ?case by (simp add: effect_0 decisionPoints_Nil)
next
  case (Cons f fs)
  then show ?case
    by (simp add: Walk_Field_effect effect_effect decisionPoints_append funDumps_append)
qed

lemma Walk_FieldList_effect:
  "Walk_FieldList fs s =
     effect (decisionPoints (concat (map fieldNodes fs))) (funDumps (concat (map fieldNodes fs))) s"
  by (simp add: Walk_FieldList_def Visit_Nil Visit_FieldList_Node fold_Walk_Field_effect)

lemma Walk_FuncDecl_effect:
  "Walk_FuncDecl fn s = effect (1 + decisionPoints (declNodes fn)) (funDumps (declNodes fn)) s"
proof -
  have recv:
    "(case fn_Recv fn of None \<Rightarrow> t | Some fs \<Rightarrow> Walk_FieldList fs t) =
       effect (decisionPoints (case fn_Recv fn of None \<Rightarrow> [] | Some fs \<Rightarrow> concat (map fieldNodes fs)))
         (funDumps (case fn_Recv fn of None \<Rightarrow> [] | Some fs \<Rightarrow> concat (map fieldNodes fs))) t"
    for t
    by (cases "fn_Recv fn") (simp_all add: Walk_FieldList_effect effect_0 decisionPoints_Nil)
  have body:
    "(case fn_Body fn of None \<Rightarrow> t | Some b \<Rightarrow> Walk b t) =
       effect (decisionPoints (case fn_Body fn of None \<Rightarrow> [] | Some b \<Rightarrow> nodes b))
         (funDumps (case fn_Body fn of None \<Rightarrow> [] | Some b \<Rightarrow> nodes b)) t"
    for t
    by (cases "fn_Body fn") (simp_all add: Walk_effect effect_0 decisionPoints_Nil)
  show ?thesis
    unfolding Walk_FuncDecl_def Let_def recv body declNodes_def
    by (simp add: Visit_Nil Visit_Decl_Node Walk_effect effect_effect decisionPoints_append
        funDumps_append decisionPoints_Cons decisionPoints_Nil add.assoc)
qed

lemma complexity_eq:
  "complexity fn out = (1 + decisionPoints (declNodes fn), out @ funDumps (declNodes fn))"
  by (simp add: complexity_def Walk_FuncDecl_effect effect_def)

lemma decisionPoints_none:
  "\<forall>n\<in>set ns. \<not> is_if n \<and> \<not> is_loop n \<and> \<not> is_arm n \<and> \<not> is_logical n \<Longrightarrow>
   decisionPoints ns = 0"
  by (induction ns) (simp_all add: decisionPoints_Nil decisionPoints_Cons)

text \<open>
  C1. The score of a declaration is 1 plus the number of \<^verbatim>\<open>if\<close> statements, of
  \<^verbatim>\<open>for\<close> and \<^verbatim>\<open>range\<close> statements, of case and communication clauses, and of
  \<^verbatim>\<open>&&\<close> and \<^verbatim>\<open>||\<close> operators among all nodes below the declaration, closures
  included; so a declaration without any of them has score 1.
\<close>

theorem complexity_counts_decision_points:
  "fst (complexity fn out) =
     1 + int (length (filter is_if (declNodes fn)))
       + int (length (filter is_loop (declNodes fn)))
       + int (length (filter is_arm (declNodes fn)))
       + int (length (filter is_logical (declNodes fn)))
   \<and> ((\<forall>n\<in>set (declNodes fn). \<not> is_if n \<and> \<not> is_loop n \<and> \<not> is_arm n \<and> \<not> is_logical n)
        \<longrightarrow> fst (complexity fn out) = 1)"
proof (intro conjI impI)
  show "fst (complexity fn out) =
     1 + int (length (filter is_if (declNodes fn)))
       + int (length (filter is_loop (declNodes fn)))
       + int (length (filter is_arm (declNodes fn)))
       + int (length (filter is_logical (declNodes fn)))"
    by (simp add: complexity_eq decisionPoints_def)
next
  assume "\<forall>n\<in>set (declNodes fn). \<not> is_if n \<and> \<not> is_loop n \<and> \<not> is_arm n \<and> \<not> is_logical n"
  then have "decisionPoints (declNodes fn) = 0"
    by (rule decisionPoints_none)
  then show "fst (complexity fn out) = 1"
    by (simp add: complexity_eq)
qed

theorem complexity_counts_decision_points_witness:
  "fst (complexity closureExample []) = 4 \<and> fst (complexity plainExample []) = 1"
  using complexity_counts_decision_points [of closureExample "[]"]
        complexity_counts_decision_points [of plainExample "[]"]
  by (simp add: closureExample_def plainExample_def declNodes_def)

text \<open>
  C8 (as stated) fails: the classifier writes to standard output. For a function that
  calls \<open>g\<close> it prints the callee.
\<close>

theorem complexity_prints_counterexample:
  "snd (complexity callExample []) = [FunDump (Ident ''g'')] \<and> snd (complexity callExample []) \<noteq> []"
  by (simp add: complexity_eq callExample_def declNodes_def)

text \<open>
  C8 (as amended). The classifier starts from a fresh visitor, so its score depends on
  the declaration alone and is the same at every invocation; it changes neither the
  tree nor the counter. Its one effect is on standard output: it appends the callee of
  every call expression below the declaration, in the order of the walk, and nothing
  else, so the output is unchanged exactly when there is no call expression.
\<close>

theorem complexity_effect_is_printing_callees:
  "complexity fn out = (fst (complexity fn []), out @ funDumps (declNodes fn))
   \<and> (snd (complexity fn out) = out \<longleftrightarrow> funDumps (declNodes fn) = [])
   \<and> complexity fn (snd (complexity fn out)) =
       (fst (complexity fn out), out @ funDumps (declNodes fn) @ funDumps (declNodes fn))"
  by (simp add: complexity_eq)

section \<open>Properties of the record builder\<close>

lemma idsFrom_0: "idsFrom c 0 = []"
  by (simp add: idsFrom_def)

lemma idsFrom_Suc: "idsFrom c (Suc n) = idsFrom c n @ [c + int n]"
  by (simp add: idsFrom_def)

lemma idsFrom_Cons: "idsFrom c (Suc n) = c # idsFrom (c + 1) n"
proof -
  have "[0..<Suc n] = 0 # map Suc [0..<n]"
    by (simp add: upt_conv_Cons map_Suc_upt del: upt_Suc)
  then show ?thesis
    by (simp add: idsFrom_def comp_def add.assoc del: upt_Suc)
qed

lemma idsFrom_append: "idsFrom c (m + n) = idsFrom c m @ idsFrom (c + int m) n"
proof (induction n)
  case 0
  show ?case by (simp add: idsFrom_0)
next
  case (Suc n)
  then show ?case by (simp add: idsFrom_Suc add.assoc)
qed

lemma is_dump_funDumps: "list_all is_dump (funDumps ns)"
  by (induction ns rule: funDumps.induct) simp_all

lemma buildLoop_appends:
  "\<exists>recs g'.
     buildLoop f decls BasicBlocks g = Inr (BasicBlocks @ recs, g')
     \<and> g_count g' = g_count g + int (length recs)
     \<and> (\<exists>ds. g_stdout g' = g_stdout g @ ds \<and> list_all is_dump ds)
     \<and> length recs = length (funcDecls decls)
     \<and> map ID recs = idsFrom (g_count g) (length recs)
     \<and> map Pos recs = map fn_Pos (funcDecls decls)
     \<and> map (Inr \<circ> FuncName) recs = map funcName (funcDecls decls)
     \<and> map PkgName recs = map (\<lambda>fn. f_Name f) (funcDecls decls)"
proof (induction f decls BasicBlocks g rule: buildLoop.induct)
  case (1 f BasicBlocks g)
  show ?case by (simp add: idsFrom_0)
next
  case (2 f fn decls BasicBlocks g)
  obtain name where name: "funcName fn = Inr name"
    using funcName_total by blast
  obtain c out where cx: "complexity fn (g_stdout g) = (c, out)"
    by (cases "complexity fn (g_stdout g)")
  let ?r = "\<lparr>PkgName = f_Name f, FuncName = name, Complexity = c,
             Pos = fn_Pos fn, EndPos = fn_End fn, ID = g_count g\<rparr>"
  let ?g1 = "\<lparr>g_count = g_count g + 1, g_stdout = out\<rparr>"
  from "2.IH" [OF name cx [symmetric]]
  obtain recs g' where
    run: "buildLoop f decls (BasicBlocks @ [?r]) ?g1 = Inr ((BasicBlocks @ [?r]) @ recs, g')"
    and cnt: "g_count g' = g_count ?g1 + int (length recs)"
    and dmp: "\<exists>ds. g_stdout g' = g_stdout ?g1 @ ds \<and> list_all is_dump ds"
    and len: "length recs = length (funcDecls decls)"
    and ids: "map ID recs = idsFrom (g_count ?g1) (length recs)"
    and pos: "map Pos recs = map fn_Pos (funcDecls decls)"
    and nam: "map (Inr \<circ> FuncName) recs = map funcName (funcDecls decls)"
    and pkg: "map PkgName recs = map (\<lambda>fn. f_Name f) (funcDecls decls)"
    by blast
  show ?case
  proof (intro exI [of _ "?r # recs"] exI [of _ g'] conjI)
    show "buildLoop f (Func fn # decls) BasicBlocks g = Inr (BasicBlocks @ (?r # recs), g')"
      using name cx run by simp
    show "g_count g' = g_count g + int (length (?r # recs))"
      using cnt by simp
    from dmp obtain ds where ds: "g_stdout g' = out @ ds" "list_all is_dump ds"
      by auto
    from cx have "out = g_stdout g @ funDumps (declNodes fn)"
      by (simp add: complexity_eq)
    with ds have "g_stdout g' = g_stdout g @ (funDumps (declNodes fn) @ ds)"
      and "list_all is_dump (funDumps (declNodes fn) @ ds)"
      by (simp_all add: is_dump_funDumps)
    then show "\<exists>ds. g_stdout g' = g_stdout g @ ds \<and> list_all is_dump ds"
      by blast
    show "length (?r # recs) = length (funcDecls (Func fn # decls))"
      using len by simp
    show "map ID (?r # recs) = idsFrom (g_count g) (length (?r # recs))"
      using ids by (simp add: idsFrom_Cons)
    show "map Pos (?r # recs) = map fn_Pos (funcDecls (Func fn # decls))"
      using pos by simp
    show "map (Inr \<circ> FuncName) (?r # recs) = map funcName (funcDecls (Func fn # decls))"
      using nam name by simp
    show "map PkgName (?r # recs) = map (\<lambda>fn. f_Name f) (funcDecls (Func fn # decls))"
      using pkg by simp
  qed
qed simp_all

lemma idsFrom_1: "idsFrom 1 n = map int [1..<Suc n]"
proof (induction n)
  case 0
  show ?case by (simp add: idsFrom_0)
next
  case (Suc n)
  then show ?case by (simp add: idsFrom_Suc)
qed

lemma buildBasicBlocks_extends:
  assumes "numbered bs g"
  shows "extends w bs (buildBasicBlocks f bs g)"
proof -
  obtain recs g' where run: "buildLoop f (f_Decls f) bs g = Inr (bs @ recs, g')"
    and cnt: "g_count g' = g_count g + int (length recs)"
    and dmp: "\<exists>ds. g_stdout g' = g_stdout g @ ds \<and> list_all is_dump ds"
    and ids: "map ID recs = idsFrom (g_count g) (length recs)"
    using buildLoop_appends [of f "f_Decls f" bs g] by blast
  from assms have a: "map ID bs = idsFrom 1 (length bs)" and b: "g_count g = 1 + int (length bs)"
    and c: "list_all is_dump (g_stdout g)"
    by (simp_all add: numbered_def)
  from dmp c have "list_all is_dump (g_stdout g')"
    by auto
  have "map ID (bs @ recs) = idsFrom 1 (length bs + length recs)"
    using a b ids by (simp add: idsFrom_append)
  moreover have "g_count g' = 1 + int (length (bs @ recs))"
    using b cnt by simp
  moreover note \<open>list_all is_dump (g_stdout g')\<close>
  ultimately show ?thesis
    using run by (simp add: extends_def buildBasicBlocks_def numbered_def)
qed

lemma extends_trans:
  assumes "extends w bs (Inr (bs', g'))" and "extends w bs' r"
  shows "extends w bs r"
proof (cases r)
  case (Inl ag)
  with assms(2) show ?thesis
    by (simp add: extends_def split: prod.splits)
next
  case (Inr bg)
  obtain bs'' g'' where bg: "bg = (bs'', g'')"
    by (cases bg)
  from assms(1) have "prefix bs bs'"
    by (simp add: extends_def)
  moreover from assms(2) Inr bg have "numbered bs'' g''" and "prefix bs' bs''"
    by (simp_all add: extends_def)
  ultimately show ?thesis
    using Inr bg by (auto simp: extends_def intro: prefix_order.trans)
qed

lemma analyzeFile_extends:
  assumes "numbered bs g"
  shows "extends w bs (analyzeFile w fname bs g)"
proof (cases "parser_ParseFile w fname")
  case (Inl err)
  moreover from assms have "list_all is_dump (g_stdout g)"
    by (simp add: numbered_def)
  ultimately show ?thesis
    by (auto simp: analyzeFile_def extends_def)
next
  case (Inr f)
  with assms show ?thesis
    by (simp add: analyzeFile_def buildBasicBlocks_extends)
qed

lemma extends_refl: "numbered bs g \<Longrightarrow> extends w bs (Inr (bs, g))"
  by (simp add: extends_def)

lemma extends_numbered: "extends w bs (Inr (bs', g')) \<Longrightarrow> numbered bs' g'"
  by (simp add: extends_def)

lemma walkLoop_extends:
  "numbered bs g \<Longrightarrow> extends w bs (walkLoop w cs bs g)"
proof (induction cs arbitrary: bs g)
  case Nil
  then show ?case by (simp add: extends_refl)
next
  case (Cons c cs)
  show ?case
  proof (cases "wc_err c = None \<and> \<not> wc_IsDir c \<and> HasSuffix (wc_path c) ''.go''")
    case True
    have step: "extends w bs (analyzeFile w (wc_path c) bs g)"
      using Cons.prems by (rule analyzeFile_extends)
    show ?thesis
    proof (cases "analyzeFile w (wc_path c) bs g")
      case (Inl ag)
      with step True show ?thesis by simp
    next
      case (Inr bg)
      obtain bs' g' where bg: "bg = (bs', g')"
        by (cases bg)
      from step Inr bg have e: "extends w bs (Inr (bs', g'))"
        by simp
      then have "extends w bs' (walkLoop w cs bs' g')"
        by (intro Cons.IH extends_numbered)
      with e have "extends w bs (walkLoop w cs bs' g')"
        by (rule extends_trans)
      with True Inr bg show ?thesis by simp
    qed
  next
    case False
    then show ?thesis
      using Cons.IH [OF Cons.prems] Cons.prems by (auto simp: extends_refl)
  qed
qed

lemma analyzeDir_extends:
  "numbered bs g \<Longrightarrow> extends w bs (analyzeDir w dirname bs g)"
  by (simp add: analyzeDir_def walkLoop_extends)

lemma analyzeLoop_extends:
  "numbered bs g \<Longrightarrow> extends w bs (analyzeLoop w paths bs g)"
proof (induction paths arbitrary: bs g)
  case Nil
  then show ?case by (simp add: extends_refl)
next
  case (Cons path paths)
  let ?r = "if isDir w path then analyzeDir w path bs g else analyzeFile w path bs g"
  have step: "extends w bs ?r"
    using Cons.prems by (simp add: analyzeDir_extends analyzeFile_extends)
  show ?case
  proof (cases ?r)
    case (Inl ag)
    with step show ?thesis by simp
  next
    case (Inr bg)
    obtain bs' g' where bg: "bg = (bs', g')"
      by (cases bg)
    from step Inr bg have e: "extends w bs (Inr (bs', g'))"
      by simp
    then have "extends w bs' (analyzeLoop w paths bs' g')"
      by (intro Cons.IH extends_numbered)
    with e have "extends w bs (analyzeLoop w paths bs' g')"
      by (rule extends_trans)
    with Inr bg show ?thesis by simp
  qed
qed

lemma analyze_extends:
  "extends w [] (analyze w paths \<lparr>g_count = 1, g_stdout = []\<rparr>)"
  unfolding analyze_def
  by (rule analyzeLoop_extends) (simp add: numbered_def idsFrom_0)

lemma idsFrom_strict: "sorted_wrt (<) (idsFrom c n)"
  by (induction n) (auto simp: idsFrom_0 idsFrom_Suc sorted_wrt_append idsFrom_def)

text \<open>
  C5. A run that analyses \<open>N\<close> function declarations gives them the ids 1, ..., \<open>N\<close> in
  the order in which the records are created, over all files: the counter starts at 1,
  the ids have no duplicate and no gap and increase strictly along the record list,
  and the counter ends at \<open>N + 1\<close>. The analysis never panics. Within one file
  \<^verbatim>\<open>buildBasicBlocks\<close> never fails, keeps the records it was given, and appends one
  record per function declaration in source order, numbered from the counter on.
\<close>

theorem record_ids_are_one_to_N:
  "(analyze w paths \<lparr>g_count = 1, g_stdout = []\<rparr> = Inr (bs, g) \<longrightarrow>
      map ID bs = map int [1..<Suc (length bs)]
      \<and> mset (map ID bs) = mset (map int [1..<Suc (length bs)])
      \<and> distinct (map ID bs)
      \<and> sorted_wrt (<) (map ID bs)
      \<and> g_count g = 1 + int (length bs))
   \<and> (\<forall>p g'. analyze w paths \<lparr>g_count = 1, g_stdout = []\<rparr> \<noteq> Inl (Panicked p, g'))
   \<and> (\<exists>recs g1.
         buildBasicBlocks f bs0 g0 = Inr (bs0 @ recs, g1)
         \<and> map ID recs = idsFrom (g_count g0) (length recs)
         \<and> g_count g1 = g_count g0 + int (length recs)
         \<and> map Pos recs = map fn_Pos (funcDecls (f_Decls f))
         \<and> map (Inr \<circ> FuncName) recs = map funcName (funcDecls (f_Decls f)))"
proof (intro conjI impI allI)
  assume run: "analyze w paths \<lparr>g_count = 1, g_stdout = []\<rparr> = Inr (bs, g)"
  with analyze_extends [of w paths] have n: "numbered bs g"
    by (simp add: extends_def)
  then show ids: "map ID bs = map int [1..<Suc (length bs)]"
    by (simp add: numbered_def idsFrom_1)
  then show "mset (map ID bs) = mset (map int [1..<Suc (length bs)])"
    by simp
  from n have "map ID bs = idsFrom 1 (length bs)"
    by (simp add: numbered_def)
  then show "sorted_wrt (<) (map ID bs)"
    by (simp add: idsFrom_strict)
  then show "distinct (map ID bs)"
    by (simp add: strict_sorted_iff)
  from n show "g_count g = 1 + int (length bs)"
    by (simp add: numbered_def)
next
  fix p g'
  show "analyze w paths \<lparr>g_count = 1, g_stdout = []\<rparr> \<noteq> Inl (Panicked p, g')"
    using analyze_extends [of w paths] by (auto simp: extends_def)
next
  show "\<exists>recs g1.
         buildBasicBlocks f bs0 g0 = Inr (bs0 @ recs, g1)
         \<and> map ID recs = idsFrom (g_count g0) (length recs)
         \<and> g_count g1 = g_count g0 + int (length recs)
         \<and> map Pos recs = map fn_Pos (funcDecls (f_Decls f))
         \<and> map (Inr \<circ> FuncName) recs = map funcName (funcDecls (f_Decls f))"
    using buildLoop_appends [of f "f_Decls f" bs0 g0] unfolding buildBasicBlocks_def by blast
qed


theorem record_ids_are_one_to_N_witness:
  "\<exists>bs g. analyze twoFiles [''a.go'', ''b.go''] \<lparr>g_count = 1, g_stdout = []\<rparr> = Inr (bs, g)
     \<and> map ID bs = [1, 2, 3] \<and> map FuncName bs = [''(T).M'', ''g'', ''f''] \<and> g_count g = 4"
proof -
  obtain bs g where
    run: "analyze twoFiles [''a.go'', ''b.go''] \<lparr>g_count = 1, g_stdout = []\<rparr> = Inr (bs, g)"
    and names: "map FuncName bs = [''(T).M'', ''g'', ''f'']"
    by (simp add: analyze_def twoFiles_def analyzeFile_def isDir_def buildBasicBlocks_def
        fileA_def fileB_def funcName_def mkMethod_def plainExample_def closureExample_def
        complexity_eq)
  from names have len: "length bs = 3"
    by (metis length_map length_Cons list.size(3) numeral_3_eq_3)
  from record_ids_are_one_to_N [of twoFiles "[''a.go'', ''b.go'']" bs g] run
  have "map ID bs = map int [1..<Suc (length bs)]" and "g_count g = 1 + int (length bs)"
    by blast+
  with len run names show ?thesis
    by (simp add: upt_conv_Cons)
qed

section \<open>Properties of the report\<close>

lemma emitted_Nil: "emitted cfg i [] = []"
  by (simp add: emitted_def)

lemma emitted_Cons:
  "emitted cfg i (b # bs) =
     (if i = top cfg \<or> Complexity b \<le> over cfg then [] else b # emitted cfg (i + 1) bs)"
proof (cases "top cfg < i")
  case True
  then show ?thesis by (simp add: emitted_def)
next
  case False
  show ?thesis
  proof (cases "i = top cfg")
    case True
    then show ?thesis by (simp add: emitted_def)
  next
    case ne: False
    with False have lt: "i < top cfg" by simp
    then have k: "nat (top cfg - i) = Suc (nat (top cfg - (i + 1)))"
      by linarith
    from lt ne have "\<not> top cfg < i + 1" by simp
    with lt ne show ?thesis
      unfolding emitted_def k by simp
  qed
qed

lemma writeLoop_eq:
  "writeLoop cfg i bs out =
     (if length (emitted cfg i bs) = length bs then None
      else Some (i + int (length (emitted cfg i bs))),
      out @ map RecordLine (emitted cfg i bs))"
proof (induction bs arbitrary: i out)
  case Nil
  show ?case by (simp add: emitted_Nil)
next
  case (Cons b bs)
  show ?case
  proof (cases "i = top cfg \<or> Complexity b \<le> over cfg")
    case True
    then show ?thesis by (auto simp: emitted_Cons)
  next
    case False
    then have "emitted cfg i (b # bs) = b # emitted cfg (i + 1) bs"
      by (simp add: emitted_Cons)
    with False show ?thesis
      by (simp add: Cons.IH)
  qed
qed


lemma writeBasicBlocks_eq:
  "writeBasicBlocks cfg bs out =
     (int (length (emitted cfg 0 bs)), out @ map RecordLine (emitted cfg 0 bs))"
  by (simp add: writeBasicBlocks_def writeLoop_eq)

lemma emitted_prefix: "prefix (emitted cfg i bs) bs"
proof -
  have "prefix (emitted cfg i bs) (if top cfg < i then bs else take (nat (top cfg - i)) bs)"
    unfolding emitted_def by (rule takeWhile_is_prefix)
  also have "prefix \<dots> bs"
    by (simp add: take_is_prefix)
  finally show ?thesis .
qed

lemma emitted_over: "b \<in> set (emitted cfg i bs) \<Longrightarrow> over cfg < Complexity b"
  unfolding emitted_def by (auto dest: set_takeWhileD)

lemma emitted_top: "i \<le> top cfg \<Longrightarrow> i + int (length (emitted cfg i bs)) \<le> top cfg"
proof -
  assume le: "i \<le> top cfg"
  have "length (emitted cfg i bs) \<le> length (take (nat (top cfg - i)) bs)"
    using le length_takeWhile_le [of "\<lambda>b. Complexity b > over cfg" "take (nat (top cfg - i)) bs"]
    unfolding emitted_def by (simp del: length_take)
  also have "\<dots> \<le> nat (top cfg - i)"
    by simp
  finally show ?thesis
    using le by linarith
qed

lemma emitted_stop:
  "bs = emitted cfg i bs @ rest \<Longrightarrow>
   rest = [] \<or> i + int (length (emitted cfg i bs)) = top cfg \<or> Complexity (hd rest) \<le> over cfg"
proof (induction bs arbitrary: i)
  case Nil
  then show ?case by (simp add: emitted_Nil)
next
  case (Cons b bs)
  show ?case
  proof (cases "i = top cfg \<or> Complexity b \<le> over cfg")
    case True
    then have e: "emitted cfg i (b # bs) = []"
      by (simp add: emitted_Cons)
    with Cons.prems have "rest = b # bs"
      by simp
    with True e show ?thesis
      by auto
  next
    case False
    then have e: "emitted cfg i (b # bs) = b # emitted cfg (i + 1) bs"
      by (simp add: emitted_Cons)
    with Cons.prems have "bs = emitted cfg (i + 1) bs @ rest"
      by simp
    from Cons.IH [OF this] e show ?thesis
      by (auto simp: add.assoc)
  qed
qed

text \<open>
  C3. The report writer prints a prefix of the sorted records, in order, and returns
  the number of records printed. It stops at the first record that stands at index
  \<open>top\<close> or whose complexity is at most \<open>over\<close>: behind the printed prefix the slice
  ends, or \<open>top\<close> records are printed, or the next record has complexity at most
  \<open>over\<close>. So every printed record has complexity over \<open>over\<close>, and the count does not
  exceed a non-negative \<open>top\<close>; with the default \<open>top\<close> of -1 there is no cap.
\<close>

theorem writeBasicBlocks_cutoff:
  "writeBasicBlocks cfg bs out =
     (int (length (emitted cfg 0 bs)), out @ map RecordLine (emitted cfg 0 bs))
   \<and> prefix (emitted cfg 0 bs) bs
   \<and> (\<forall>rest. bs = emitted cfg 0 bs @ rest \<longrightarrow>
         rest = [] \<or> int (length (emitted cfg 0 bs)) = top cfg
         \<or> Complexity (hd rest) \<le> over cfg)
   \<and> (\<forall>b\<in>set (emitted cfg 0 bs). over cfg < Complexity b)
   \<and> (0 \<le> top cfg \<longrightarrow> fst (writeBasicBlocks cfg bs out) \<le> top cfg)
   \<and> (top cfg = top flagDefaults \<longrightarrow>
         emitted cfg 0 bs = takeWhile (\<lambda>b. over cfg < Complexity b) bs)"
proof (intro conjI allI impI ballI)
  show "writeBasicBlocks cfg bs out =
     (int (length (emitted cfg 0 bs)), out @ map RecordLine (emitted cfg 0 bs))"
    by (rule writeBasicBlocks_eq)
  show "prefix (emitted cfg 0 bs) bs"
    by (rule emitted_prefix)
next
  fix rest
  assume "bs = emitted cfg 0 bs @ rest"
  from emitted_stop [OF this]
  show "rest = [] \<or> int (length (emitted cfg 0 bs)) = top cfg \<or> Complexity (hd rest) \<le> over cfg"
    by simp
next
  fix b
  assume "b \<in> set (emitted cfg 0 bs)"
  then show "over cfg < Complexity b"
    by (rule emitted_over)
next
  assume "0 \<le> top cfg"
  from emitted_top [OF this, of bs] show "fst (writeBasicBlocks cfg bs out) \<le> top cfg"
    by (simp add: writeBasicBlocks_eq)
next
  assume "top cfg = top flagDefaults"
  then show "emitted cfg 0 bs = takeWhile (\<lambda>b. over cfg < Complexity b) bs"
    by (simp add: emitted_def flagDefaults_def)
qed

theorem writeBasicBlocks_cutoff_witness:
  "writeBasicBlocks \<lparr>over = 2, top = 1, avg = False\<rparr> threeRecords [] =
     (1, [RecordLine (threeRecords ! 0)])
   \<and> writeBasicBlocks \<lparr>over = 2, top = - 1, avg = False\<rparr> threeRecords [] =
     (2, [RecordLine (threeRecords ! 0), RecordLine (threeRecords ! 1)])
   \<and> writeBasicBlocks flagDefaults threeRecords [] = (3, map RecordLine threeRecords)"
  using writeBasicBlocks_cutoff [of "\<lparr>over = 2, top = 1, avg = False\<rparr>" threeRecords "[]"]
        writeBasicBlocks_cutoff [of "\<lparr>over = 2, top = - 1, avg = False\<rparr>" threeRecords "[]"]
        writeBasicBlocks_cutoff [of flagDefaults threeRecords "[]"]
  by (simp add: emitted_def flagDefaults_def threeRecords_def)

section \<open>Properties of the average\<close>

lemma fold_total: "fold (\<lambda>s total. total + Complexity s) bs t = t + sum_list (map Complexity bs)"
  by (induction bs arbitrary: t) simp_all

lemma average_eq:
  "average bs = float64_quo (sum_list (map Complexity bs)) (int (length bs))"
  by (simp add: average_def fold_total)

lemma sum_list_mset_eq:
  fixes xs ys :: "int list"
  shows "mset xs = mset ys \<Longrightarrow> sum_list xs = sum_list ys"
  by (metis sum_mset_sum_list)

lemma average_mset: "mset bs = mset bs' \<Longrightarrow> average bs = average bs'"
proof -
  assume m: "mset bs = mset bs'"
  then have "mset (map Complexity bs) = mset (map Complexity bs')"
    by (metis mset_map)
  then have "sum_list (map Complexity bs) = sum_list (map Complexity bs')"
    by (rule sum_list_mset_eq)
  moreover from m have "length bs = length bs'"
    by (rule mset_eq_length)
  ultimately show ?thesis
    by (simp add: average_eq)
qed

text \<open>
  C4 (as stated) fails for zero records: the average is computed as \<open>0 / 0\<close> in floating
  point without any special case, and the line printed is \<^verbatim>\<open>Average: NaN\<close>.
\<close>

theorem average_empty_counterexample:
  "average [] = NaN \<and> showAverage [] [] = [AverageLine NaN]"
  by (simp add: average_def showAverage_def float64_quo_def)

section \<open>Properties of the sort\<close>

lemma elem_append_right:
  "elem (xs @ x # ys) (int (length xs)) = Inr x"
  by (simp add: elem_def)

lemma elem_snoc_left:
  "elem (xs @ y # x # ys) (int (length xs)) = Inr y"
  by (simp add: elem_def)

lemma elem_snoc_right:
  "elem (xs @ y # x # ys) (int (length xs) + 1) = Inr x"
  by (simp add: elem_def nth_append nat_add_distrib)

lemma Less_adjacent:
  "Less (xs @ y # x # ys) (int (length xs) + 1) (int (length xs)) =
     Inr (Complexity x \<ge> Complexity y)"
  by (simp add: Less_def elem_snoc_left elem_snoc_right)

lemma Swap_adjacent:
  "Swap (xs @ y # x # ys) (int (length xs) + 1) (int (length xs)) = Inr (xs @ x # y # ys)"
  by (simp add: Swap_def elem_snoc_left elem_snoc_right nat_add_distrib list_update_append)

lemma insertionSort_inner_stop:
  "insertionSort_inner Less Swap data 0 0 = Inr data"
  by (subst insertionSort_inner.simps) simp

lemma insertionSort_inner_step:
  "insertionSort_inner Less Swap (xs @ y # x # post) 0 (int (length xs) + 1) =
     (if Complexity x \<ge> Complexity y
      then insertionSort_inner Less Swap (xs @ x # y # post) 0 (int (length xs))
      else Inr (xs @ y # x # post))"
  by (subst insertionSort_inner.simps [of _ _ "xs @ y # x # post"])
     (simp add: Less_adjacent Swap_adjacent)

lemma insertionSort_inner_insertBack:
  "insertionSort_inner Less Swap (rev ys @ x # post) 0 (int (length ys)) =
     Inr (rev (insertBack x ys) @ post)"
proof (induction ys arbitrary: post)
  case Nil
  show ?case by (simp add: insertionSort_inner_stop)
next
  case (Cons y ys)
  have "insertionSort_inner Less Swap (rev ys @ y # x # post) 0 (int (length (rev ys)) + 1) =
          (if Complexity x \<ge> Complexity y
           then insertionSort_inner Less Swap (rev ys @ x # y # post) 0 (int (length (rev ys)))
           else Inr (rev ys @ y # x # post))"
    by (rule insertionSort_inner_step)
  then show ?case
    using Cons.IH [of "y # post"] by (simp add: add.commute)
qed

lemma length_insertBack: "length (insertBack x ys) = Suc (length ys)"
  by (induction ys) simp_all

lemma insertionSort_outer_fold:
  "insertionSort_outer Less Swap (rev ys @ rest) 0 (int (length ys + length rest)) (int (length ys)) =
     Inr (rev (fold insertBack rest ys))"
proof (induction rest arbitrary: ys)
  case Nil
  show ?case by (subst insertionSort_outer.simps) simp
next
  case (Cons x rest)
  have "insertionSort_outer Less Swap (rev ys @ x # rest) 0
          (int (length ys + length (x # rest))) (int (length ys)) =
        insertionSort_outer Less Swap (rev (insertBack x ys) @ rest) 0
          (int (length (insertBack x ys) + length rest)) (int (length (insertBack x ys)))"
    by (subst insertionSort_outer.simps)
       (simp add: insertionSort_inner_insertBack length_insertBack add.commute)
  also have "\<dots> = Inr (rev (fold insertBack rest (insertBack x ys)))"
    by (rule Cons.IH)
  finally show ?case
    by simp
qed

lemma sort_Sort_short_eq: "sort_Sort_short s = Inr (rev (fold insertBack s []))"
proof (cases s)
  case Nil
  then show ?thesis
    by (simp add: sort_Sort_short_def insertionSort_def Len_def insertionSort_outer.simps)
next
  case (Cons x rest)
  have "insertionSort_outer Less Swap (rev [x] @ rest) 0 (int (length [x] + length rest))
          (int (length [x])) = Inr (rev (fold insertBack rest [x]))"
    by (rule insertionSort_outer_fold)
  then show ?thesis
    using Cons by (simp add: sort_Sort_short_def insertionSort_def Len_def)
qed












section \<open>Properties of the command\<close>

lemma twoFiles_analyze:
  "analyze twoFiles [''a.go'', ''b.go''] \<lparr>g_count = 1, g_stdout = []\<rparr> =
     Inr (twoFilesRecords, \<lparr>g_count = 4, g_stdout = []\<rparr>)"
  by (simp add: analyze_def twoFiles_def analyzeFile_def isDir_def buildBasicBlocks_def
      fileA_def fileB_def funcName_def mkMethod_def plainExample_def closureExample_def
      complexity_eq twoFilesRecords_def declNodes_def fieldNodes_def decisionPoints_def)

lemma twoFiles_sort: "sort_Sort_short twoFilesRecords = Inr (rev twoFilesRecords)"
  by (simp add: sort_Sort_short_eq twoFilesRecords_def)




lemma main_sorted:
  "args \<noteq> [] \<Longrightarrow> analyze w args \<lparr>g_count = 1, g_stdout = []\<rparr> = Inr (bs, g) \<Longrightarrow>
   srt bs = Inr bs' \<Longrightarrow>
   main srt w (Parsed cfg args) =
     \<lparr>p_stdout = g_stdout g @ map RecordLine (emitted cfg 0 bs') @
                   (if avg cfg then [AverageLine (average bs')] else []),
      p_stderr = [],
      p_status = (if over cfg > 0 \<and> emitted cfg 0 bs' \<noteq> [] then 1 else 0)\<rparr>"
  by (simp add: main_def writeBasicBlocks_eq showAverage_def)

text \<open>
  C4 (as amended). The average is the sum of the complexities divided by the number of
  records, in floating point (the quotient before rounding); with \<^verbatim>\<open>-avg\<close> the line is
  printed after the report and is computed over all records of the run, whatever
  \<^verbatim>\<open>-over\<close> and \<^verbatim>\<open>-top\<close> left of the report, the sort having only rearranged the
  records. For zero records there is no special case: the quotient is \<open>0 / 0\<close>, NaN.
\<close>

theorem average_is_mean_of_all_records:
  "(bs \<noteq> [] \<longrightarrow>
      average bs = Fin (real_of_int (sum_list (map Complexity bs)) / real (length bs)))
   \<and> (bs = [] \<longrightarrow> average bs = NaN)
   \<and> (args \<noteq> [] \<and> analyze w args \<lparr>g_count = 1, g_stdout = []\<rparr> = Inr (bs, g)
        \<and> srt bs = Inr bs' \<and> mset bs' = mset bs \<and> avg cfg \<longrightarrow>
      p_stdout (main srt w (Parsed cfg args)) =
        g_stdout g @ map RecordLine (emitted cfg 0 bs') @ [AverageLine (average bs)])"
proof (intro conjI impI)
  assume "bs \<noteq> []"
  then show "average bs = Fin (real_of_int (sum_list (map Complexity bs)) / real (length bs))"
    by (simp add: average_eq float64_quo_def)
next
  assume "bs = []"
  then show "average bs = NaN"
    by (simp add: average_eq float64_quo_def)
next
  assume a: "args \<noteq> [] \<and> analyze w args \<lparr>g_count = 1, g_stdout = []\<rparr> = Inr (bs, g)
        \<and> srt bs = Inr bs' \<and> mset bs' = mset bs \<and> avg cfg"
  then have "average bs' = average bs"
    by (intro average_mset) simp
  with a show "p_stdout (main srt w (Parsed cfg args)) =
        g_stdout g @ map RecordLine (emitted cfg 0 bs') @ [AverageLine (average bs)]"
    by (simp add: main_sorted)
qed

theorem average_is_mean_of_all_records_witness:
  "average twoFilesRecords = Fin 2
   \<and> p_stdout (main sort_Sort_short twoFiles (Parsed \<lparr>over = 1, top = 1, avg = True\<rparr> [''a.go'', ''b.go''])) =
       [RecordLine (twoFilesRecords ! 2), AverageLine (Fin 2)]"
  using average_is_mean_of_all_records
          [of twoFilesRecords "[''a.go'', ''b.go'']" twoFiles "\<lparr>g_count = 4, g_stdout = []\<rparr>"
              sort_Sort_short "rev twoFilesRecords" "\<lparr>over = 1, top = 1, avg = True\<rparr>"]
  by (simp add: twoFiles_analyze twoFiles_sort) (simp add: twoFilesRecords_def emitted_def)










end
